theory Spec2Isabelle
  imports Main "HOL-Library.Sublist"
begin

text \<open>
  A shallow embedding of the tenant-scope codemod scripts of the repository:
  \<^verbatim>\<open>fix-all-tenant-nulls.py\<close>, \<^verbatim>\<open>fix-remaining-nulls.py\<close>,
  \<^verbatim>\<open>fix-reconciliation-nulls.py\<close>, \<^verbatim>\<open>scripts/fix-remaining-tenant-id.py\<close> and
  \<^verbatim>\<open>scripts/add-missing-tenant-id.py\<close>. A file is its text; a function that may write
  the file returns \<open>Some text\<close> when it writes and \<open>None\<close> when it does not.
\<close>

section \<open>Text primitives of the scripts\<close>

text \<open>
  File contents are Python \<open>str\<close> values; they are modelled as \<open>string\<close> (lists of
  characters) restricted to the ASCII range: a character above 127 is neither
  whitespace nor a word character and is left alone by \<open>lower\<close>.
\<close>

text \<open>\<open>s.startswith(p)\<close>.\<close>

fun starts_with :: "string \<Rightarrow> string \<Rightarrow> bool" where
  "starts_with [] s = True"
| "starts_with (p # ps) [] = False"
| "starts_with (p # ps) (c # cs) = (p = c \<and> starts_with ps cs)"

text \<open>\<open>p in s\<close> for strings: \<open>p\<close> occurs in \<open>s\<close> as a contiguous block.\<close>

fun contains :: "string \<Rightarrow> string \<Rightarrow> bool" where
  "contains p [] = (p = [])"
| "contains p (c # cs) = (starts_with p (c # cs) \<or> contains p cs)"

text \<open>
  \<open>s.replace(old, new)\<close>: all non-overlapping occurrences, leftmost first. With an
  empty \<open>old\<close> Python puts \<open>new\<close> before every character and at the end.
\<close>

fun replace :: "string \<Rightarrow> string \<Rightarrow> string \<Rightarrow> string" where
  "replace [] new s = new @ concat (map (\<lambda>c. c # new) s)"
| "replace (p # ps) new [] = []"
| "replace (p # ps) new (c # cs) =
     (if starts_with (p # ps) (c # cs)
      then new @ replace (p # ps) new (drop (length ps) cs)
      else c # replace (p # ps) new cs)"

text \<open>\<open>s.split(d)\<close> for a one-character separator, and \<open>d.join(ls)\<close>.\<close>

fun split_on :: "char \<Rightarrow> string \<Rightarrow> string list" where
  "split_on d [] = [[]]"
| "split_on d (c # cs) =
     (if c = d then [] # split_on d cs
      else (case split_on d cs of
              [] \<Rightarrow> [[c]]
            | l # ls \<Rightarrow> (c # l) # ls))"

fun join :: "string \<Rightarrow> string list \<Rightarrow> string" where
  "join d [] = []"
| "join d [l] = l"
| "join d (l # l' # ls) = l @ d @ join d (l' # ls)"

definition nl :: char where
  "nl = CHR 0x0A"

text \<open>Whitespace as \<open>str.isspace\<close>, \<open>str.strip\<close> and the pattern \<open>\s\<close> see it.\<close>

definition is_space :: "char \<Rightarrow> bool" where
  "is_space c = (let n = (of_char c :: nat) in (9 \<le> n \<and> n \<le> 13) \<or> (28 \<le> n \<and> n \<le> 32))"

text \<open>Word characters, the pattern \<open>\w\<close>: letters, digits and the underscore.\<close>

definition is_word :: "char \<Rightarrow> bool" where
  "is_word c = (let n = (of_char c :: nat) in
     (48 \<le> n \<and> n \<le> 57) \<or> (65 \<le> n \<and> n \<le> 90) \<or> n = 95 \<or> (97 \<le> n \<and> n \<le> 122))"

definition lower_char :: "char \<Rightarrow> char" where
  "lower_char c = (let n = (of_char c :: nat) in
     if 65 \<le> n \<and> n \<le> 90 then char_of (n + 32) else c)"

definition lower :: "string \<Rightarrow> string" where
  "lower s = map lower_char s"

definition lstrip :: "string \<Rightarrow> string" where
  "lstrip s = dropWhile is_space s"

definition strip :: "string \<Rightarrow> string" where
  "strip s = rev (dropWhile is_space (rev (dropWhile is_space s)))"

section \<open>Regular expressions\<close>

text \<open>
  The patterns of the scripts are values of \<open>regex\<close>; \<open>rmatch\<close> is the backtracking
  matcher of Python's \<open>re\<close>: it returns every way the pattern can match at the current
  position, in the order the engine tries them (greedy repetition first, the left
  alternative first), so the head of the list is the match Python reports. A matcher
  state is the text before the position (reversed), the text from the position on, and
  the groups captured so far.
\<close>

datatype cclass = Word | Space | Dot | AnyOf string | AnyBut string

fun in_class :: "cclass \<Rightarrow> char \<Rightarrow> bool" where
  "in_class Word c = is_word c"
| "in_class Space c = is_space c"
| "in_class Dot c = (c \<noteq> nl)"
| "in_class (AnyOf cs) c = (c \<in> set cs)"
| "in_class (AnyBut cs) c = (c \<notin> set cs)"

datatype regex =
    Lit string
  | One cclass
  | Star cclass
  | Plus cclass
  | Seq regex regex
  | Alt regex regex
  | Opt regex
  | Group nat regex
  | WordBoundary
  | NotBehind string

type_synonym captures = "(nat \<times> string) list"
type_synonym mstate = "string \<times> string \<times> captures"

fun star_ends :: "(char \<Rightarrow> bool) \<Rightarrow> string \<Rightarrow> string \<Rightarrow> captures \<Rightarrow> mstate list" where
  "star_ends P bef [] caps = [(bef, [], caps)]"
| "star_ends P bef (c # cs) caps =
     (if P c then star_ends P (c # bef) cs caps @ [(bef, c # cs, caps)]
      else [(bef, c # cs, caps)])"

definition at_word_boundary :: "string \<Rightarrow> string \<Rightarrow> bool" where
  "at_word_boundary bef s =
     ((case bef of [] \<Rightarrow> False | b # _ \<Rightarrow> is_word b) \<noteq>
      (case s of [] \<Rightarrow> False | c # _ \<Rightarrow> is_word c))"

fun rmatch :: "regex \<Rightarrow> mstate \<Rightarrow> mstate list" where
  "rmatch (Lit l) (bef, s, caps) =
     (if starts_with l s then [(rev l @ bef, drop (length l) s, caps)] else [])"
| "rmatch (One k) (bef, s, caps) =
     (case s of [] \<Rightarrow> [] | c # cs \<Rightarrow> if in_class k c then [(c # bef, cs, caps)] else [])"
| "rmatch (Star k) (bef, s, caps) = star_ends (in_class k) bef s caps"
| "rmatch (Plus k) (bef, s, caps) =
     (case s of [] \<Rightarrow> []
      | c # cs \<Rightarrow> if in_class k c then star_ends (in_class k) (c # bef) cs caps else [])"
| "rmatch (Seq a b) st = concat (map (rmatch b) (rmatch a st))"
| "rmatch (Alt a b) st = rmatch a st @ rmatch b st"
| "rmatch (Opt a) st = rmatch a st @ [st]"
| "rmatch (Group n a) (bef, s, caps) =
     map (\<lambda>(bef', s', caps'). (bef', s', (n, take (length s - length s') s) # caps'))
       (rmatch a (bef, s, caps))"
| "rmatch WordBoundary (bef, s, caps) =
     (if at_word_boundary bef s then [(bef, s, caps)] else [])"
| "rmatch (NotBehind l) (bef, s, caps) =
     (if starts_with (rev l) bef then [] else [(bef, s, caps)])"

fun seqs :: "regex list \<Rightarrow> regex" where
  "seqs [] = Lit []"
| "seqs [r] = r"
| "seqs (r # r' # rs) = Seq r (seqs (r' # rs))"

text \<open>\<open>match.group(n)\<close>; a group that took no part in the match gives the empty string
  in a replacement template.\<close>

definition group :: "nat \<Rightarrow> captures \<Rightarrow> string" where
  "group n caps = (case map_of caps n of None \<Rightarrow> [] | Some g \<Rightarrow> g)"

text \<open>
  \<open>re.finditer\<close>: the non-overlapping matches from left to right, each as start offset,
  end offset and captured groups. \<open>skip\<close> counts the characters still covered by the
  match found last. None of the scripts' patterns matches the empty string; after an
  empty match the scan moves on by one character.
\<close>

type_synonym rematch = "nat \<times> nat \<times> captures"

fun finditer_from :: "regex \<Rightarrow> nat \<Rightarrow> nat \<Rightarrow> string \<Rightarrow> string \<Rightarrow> rematch list" where
  "finditer_from r skip pos bef [] =
     (if skip = 0 then
        (case rmatch r (bef, [], []) of [] \<Rightarrow> [] | (_, _, caps) # _ \<Rightarrow> [(pos, pos, caps)])
      else [])"
| "finditer_from r skip pos bef (c # cs) =
     (if skip > 0 then finditer_from r (skip - 1) (Suc pos) (c # bef) cs
      else (case rmatch r (bef, c # cs, []) of
              [] \<Rightarrow> finditer_from r 0 (Suc pos) (c # bef) cs
            | (_, rest, caps) # _ \<Rightarrow>
                (pos, pos + (Suc (length cs) - length rest), caps) #
                finditer_from r (length cs - length rest) (Suc pos) (c # bef) cs))"

definition finditer :: "regex \<Rightarrow> string \<Rightarrow> rematch list" where
  "finditer r s = finditer_from r 0 0 [] s"

definition match_end :: "rematch \<Rightarrow> nat" where
  "match_end m = fst (snd m)"

text \<open>\<open>re.search(r, s)\<close> as a truth value, and \<open>re.match(r, s)\<close>, anchored at the start.\<close>

definition re_search :: "regex \<Rightarrow> string \<Rightarrow> bool" where
  "re_search r s = (finditer r s \<noteq> [])"

definition re_match :: "regex \<Rightarrow> string \<Rightarrow> bool" where
  "re_match r s = (rmatch r ([], s, []) \<noteq> [])"

text \<open>
  \<open>re.sub\<close>: every match is replaced by \<open>repl\<close> of the matched text and its groups;
  \<open>pos\<close> is the offset in the original text at which \<open>s\<close> begins.
\<close>

fun apply_subs :: "(string \<Rightarrow> captures \<Rightarrow> string) \<Rightarrow> nat \<Rightarrow> rematch list \<Rightarrow> string \<Rightarrow> string" where
  "apply_subs repl pos [] s = s"
| "apply_subs repl pos ((a, b, caps) # ms) s =
     take (a - pos) s @ repl (take (b - a) (drop (a - pos) s)) caps @
     apply_subs repl b ms (drop (b - pos) s)"

definition re_sub :: "regex \<Rightarrow> (string \<Rightarrow> captures \<Rightarrow> string) \<Rightarrow> string \<Rightarrow> string" where
  "re_sub r repl s = apply_subs repl 0 (finditer r s) s"

text \<open>\<open>re.sub(r, repl, s, count=1)\<close>.\<close>

definition re_sub_first :: "regex \<Rightarrow> (string \<Rightarrow> captures \<Rightarrow> string) \<Rightarrow> string \<Rightarrow> string" where
  "re_sub_first r repl s = apply_subs repl 0 (take 1 (finditer r s)) s"

section \<open>Guard insertion\<close>

text \<open>
  The loops \<open>for match in reversed(...)\<close> of \<open>fix_controller_file\<close> and
  \<open>fix_any_file\<close>: \<open>window\<close> is the number of characters inspected after the match
  end, \<open>signs\<close> the texts whose presence there means "already guarded", \<open>guard\<close> the
  text to insert. The list holds the match ends in the order the loop visits them.
\<close>

fun insert_guards :: "nat \<Rightarrow> string list \<Rightarrow> string \<Rightarrow> nat list \<Rightarrow> string \<Rightarrow> string" where
  "insert_guards window signs guard [] content = content"
| "insert_guards window signs guard (start_pos # rest) content =
     (if list_ex (\<lambda>sign. contains sign (take window (drop start_pos content))) signs
      then insert_guards window signs guard rest content
      else insert_guards window signs guard rest
             (take start_pos content @ guard @ drop start_pos content))"

text \<open>
  The patch applier as the specification describes it: \<open>guard\<close> is put at each offset
  of a descending list, every offset being a position of the original text \<open>content\<close>.
  The largest offset splits the text; the others fall in the part before it.
\<close>

fun insert_at_offsets :: "string \<Rightarrow> nat list \<Rightarrow> string \<Rightarrow> string" where
  "insert_at_offsets guard [] content = content"
| "insert_at_offsets guard (p # ps) content =
     insert_at_offsets guard ps (take p content) @ guard @ drop p content"

definition null_check :: string where
  "null_check =
     ''\<newline>    if (!user.tenantId) {\<newline>      throw new Error('This operation requires a tenant. SUPER_ADMIN users cannot access tenant-specific data.');\<newline>    }\<newline>    const tenantId = user.tenantId;\<newline>''"

definition method_pattern :: regex where
  "method_pattern = seqs
     [Lit ''async '', Plus Word, Lit ''('', Star (AnyBut ''{''),
      Lit ''@CurrentUser() user: IUser'', Star (AnyBut ''{''), Lit '')'', Star Space,
      Opt (seqs [Lit '':'', Star Space, Lit ''Promise<'', Plus (AnyBut ''>''), Lit ''>'']),
      Star Space, Lit ''{'']"

section \<open>Reference rewriting\<close>

text \<open>
  The loop of \<open>fix_controller_file\<close> (and, character for character, of strategy 2 in
  \<open>fix_any_file\<close>) over the lines of the text; \<open>in_null_check\<close> is the loop's flag.
\<close>

fun rewrite_lines :: "bool \<Rightarrow> string list \<Rightarrow> string list" where
  "rewrite_lines in_null_check [] = []"
| "rewrite_lines in_null_check (line # lines) =
     (if contains ''!user.tenantId'' line then line # rewrite_lines True lines
      else if in_null_check then
        line # rewrite_lines (\<not> contains ''const tenantId = user.tenantId'' line) lines
      else
        (if contains ''user.tenantId'' line \<and> \<not> contains ''logger'' (lower line)
         then replace ''user.tenantId'' ''tenantId'' line
         else line) # rewrite_lines False lines)"

text \<open>The value of the flag \<open>in_null_check\<close> after the loop has gone through \<open>lines\<close>:
  the state of the guard-block state machine at the line that follows them.\<close>

fun flag_after :: "bool \<Rightarrow> string list \<Rightarrow> bool" where
  "flag_after in_null_check [] = in_null_check"
| "flag_after in_null_check (line # lines) =
     flag_after
       (if contains ''!user.tenantId'' line then True
        else if in_null_check then \<not> contains ''const tenantId = user.tenantId'' line
        else False) lines"

definition rewrite_references :: "string \<Rightarrow> string" where
  "rewrite_references content =
     join [nl] (rewrite_lines False (split_on nl content))"

text \<open>The same loop as \<open>fix_reconciliation_controller\<close> has it.\<close>

fun rewrite_lines_recon :: "bool \<Rightarrow> string list \<Rightarrow> string list" where
  "rewrite_lines_recon in_null_check [] = []"
| "rewrite_lines_recon in_null_check (line # lines) =
     (if contains ''!user.tenantId'' line \<or> contains ''const tenantId = user.tenantId'' line
      then line # rewrite_lines_recon True lines
      else if in_null_check \<and> strip line = ''}'' then line # rewrite_lines_recon False lines
      else
        (if \<not> in_null_check \<and> contains ''user.tenantId'' line
         then replace ''user.tenantId'' ''tenantId'' line
         else line) # rewrite_lines_recon in_null_check lines)"


section \<open>fix-all-tenant-nulls.py\<close>

text \<open>\<open>fix_controller_file\<close>: returns early without writing when no method is found,
  and otherwise writes the result whatever it is.\<close>

definition fix_controller_file :: "string \<Rightarrow> string option" where
  "fix_controller_file content =
     (let methods_found = finditer method_pattern content in
      if methods_found = [] then None
      else Some (rewrite_references
             (insert_guards 200 [''!user.tenantId'', ''const tenantId = user.tenantId''] null_check
                (rev (map match_end methods_found)) content)))"

definition dto_bang_pattern :: regex where
  "dto_bang_pattern = seqs [Lit ''tenantId!:'', Star Space, Lit ''string;'']"

definition dto_plain_pattern :: regex where
  "dto_plain_pattern = seqs [Lit ''tenantId:'', Star Space, Lit ''string;'']"

definition dto_replacement :: "string \<Rightarrow> captures \<Rightarrow> string" where
  "dto_replacement m caps = ''tenantId?: string | null;''"

definition fix_dto_file :: "string \<Rightarrow> string option" where
  "fix_dto_file original =
     (let content = re_sub dto_bang_pattern dto_replacement original;
          content = re_sub dto_plain_pattern dto_replacement content
      in if content \<noteq> original then Some content else None)"

definition fix_types_file :: "string \<Rightarrow> string option" where
  "fix_types_file original =
     (let content = re_sub dto_plain_pattern dto_replacement original;
          content = re_sub dto_bang_pattern dto_replacement content
      in if content \<noteq> original then Some content else None)"

section \<open>fix-remaining-nulls.py\<close>

definition ends_with :: "string \<Rightarrow> string \<Rightarrow> bool" where
  "ends_with e s = starts_with (rev e) (rev s)"

definition dto_spaced_pattern :: regex where
  "dto_spaced_pattern = seqs
     [NotBehind ''tenantId?:'', Group 1 (Plus Space), Lit ''tenantId:'', Star Space,
      Lit ''string;'']"

definition dto_spaced_replacement :: "string \<Rightarrow> captures \<Rightarrow> string" where
  "dto_spaced_replacement m caps = group 1 caps @ ''tenantId?: string | null;''"

definition func_pattern :: regex where
  "func_pattern = seqs
     [Opt (Seq (Lit ''async'') (Plus Space)),
      Opt (Alt (Seq (Lit ''public'') (Plus Space))
            (Alt (Seq (Lit ''private'') (Plus Space)) (Seq (Lit ''protected'') (Plus Space)))),
      Plus Word, Star Space, Lit ''('', Star (AnyBut '')''), WordBoundary, Lit ''tenantId:'',
      Star Space, Lit ''string'', Star (AnyBut '')''), Lit '')'',
      Opt (seqs [Star Space, Lit '':'', Star Space, Plus (AnyBut ''{'')]),
      Star Space, Lit ''{'']"

definition param_check :: string where
  "param_check =
     ''\<newline>    if (!tenantId) {\<newline>      throw new Error('tenantId is required');\<newline>    }\<newline>''"

text \<open>Strategies 1 and 2: the guards for controller methods and the rewriting of the
  references, both only when a method was found.\<close>

definition fix_methods :: "string \<Rightarrow> string" where
  "fix_methods content =
     (let methods_found = finditer method_pattern content in
      if methods_found \<noteq> [] then
        rewrite_references
          (insert_guards 300 [''!user.tenantId''] null_check
             (rev (map match_end methods_found)) content)
      else content)"

text \<open>Strategies 3 and 4 apply the same two substitutions.\<close>

definition make_optional :: "string \<Rightarrow> string" where
  "make_optional content =
     re_sub dto_spaced_pattern dto_spaced_replacement
       (re_sub dto_bang_pattern dto_replacement content)"

text \<open>Strategy 5: the parameter checks of service, repository and handler files.\<close>

definition add_param_checks :: "string \<Rightarrow> string" where
  "add_param_checks content =
     insert_guards 200 [''!tenantId''] param_check
       (rev (map match_end (finditer func_pattern content))) content"

definition fix_any_file :: "string \<Rightarrow> string \<Rightarrow> string option" where
  "fix_any_file file_path original_content =
     (let content = fix_methods original_content;
          content = (if contains ''/dto/'' file_path \<or> ends_with ''.dto.ts'' file_path
                     then make_optional content else content);
          content = (if contains ''/entities/'' file_path then make_optional content else content);
          content = (if contains ''/services/'' file_path \<or> contains ''/repositories/'' file_path
                        \<or> contains ''/handlers/'' file_path
                     then add_param_checks content else content)
      in if content \<noteq> original_content then Some content else None)"

section \<open>fix-reconciliation-nulls.py\<close>




section \<open>scripts/fix-remaining-tenant-id.py\<close>

definition quote_chars :: string where
  "quote_chars = [CHR 0x27, CHR 0x22]"

definition user_import_patterns :: "regex list" where
  "user_import_patterns =
     [Group 1 (seqs [Lit ''import type { IUser } from '', One (AnyOf quote_chars), Star Dot,
                     Lit ''user.entity'', One (AnyOf quote_chars), Lit '';'']),
      Group 1 (seqs [Lit ''import { IUser } from '', One (AnyOf quote_chars), Star Dot,
                     Lit ''user.entity'', One (AnyOf quote_chars), Lit '';'']),
      Group 1 (seqs [Lit ''from '', One (AnyOf quote_chars), Star Dot,
                     Lit ''user.entity'', One (AnyOf quote_chars), Lit '';''])]"

text \<open>The import resolver: the module path chosen from the place of the file.\<close>

definition relative_path :: "string \<Rightarrow> string" where
  "relative_path filepath =
     (if contains ''/api/admin/'' filepath then ''../../auth/utils/tenant-assertions''
      else if contains ''/websocket/'' filepath then ''../api/auth/utils/tenant-assertions''
      else ''../auth/utils/tenant-assertions'')"

definition import_line :: "string \<Rightarrow> string" where
  "import_line filepath =
     ''\<newline>import { getTenantId } from '' @ [CHR 0x27] @ relative_path filepath @ [CHR 0x27] @ '';''"

text \<open>The loop over the import patterns, left at the first pattern found in the text;
  the second component is the flag \<open>modified\<close>.\<close>

fun add_import :: "regex list \<Rightarrow> string \<Rightarrow> string \<Rightarrow> string \<times> bool" where
  "add_import [] filepath content = (content, False)"
| "add_import (pattern # rest) filepath content =
     (if re_search pattern content
      then (re_sub_first pattern (\<lambda>m caps. group 1 caps @ import_line filepath) content, True)
      else add_import rest filepath content)"

definition manual_check_pattern :: regex where
  "manual_check_pattern = seqs
     [Lit ''if (!user.tenantId) {'', Star Space, Lit ''throw new Error('',
      Plus (AnyBut '')''), Lit ''SUPER_ADMIN'', Plus (AnyBut '')''), Lit '');'', Star Space,
      Lit ''}'']"

definition manual_check_replacement :: "string \<Rightarrow> captures \<Rightarrow> string" where
  "manual_check_replacement m caps =
     ''// Extract and validate tenantId - TenantGuard ensures it exists\<newline>    const tenantId = getTenantId(user);''"

text \<open>\<open>fix_file\<close> of \<^verbatim>\<open>fix-remaining-tenant-id.py\<close>; \<open>exists\<close> is the answer of
  \<open>os.path.exists(filepath)\<close>.\<close>

definition fix_file_remaining :: "string \<Rightarrow> bool \<Rightarrow> string \<Rightarrow> string option" where
  "fix_file_remaining filepath exists original_content =
     (if \<not> exists then None
      else
        let (content, modified) =
              (if \<not> contains ''getTenantId'' original_content
               then add_import user_import_patterns filepath original_content
               else (original_content, False));
            count = length (finditer manual_check_pattern content);
            (content, modified) =
              (if count > 0
               then (re_sub manual_check_pattern manual_check_replacement content, True)
               else (content, modified))
        in if modified \<and> content \<noteq> original_content then Some content else None)"

section \<open>scripts/add-missing-tenant-id.py\<close>

datatype error = IndexError

definition decl_pattern :: regex where
  "decl_pattern = seqs
     [Star Space, Opt (Group 1 (Seq (Lit ''async'') (Plus Space))), Plus Word, Star Space,
      Lit ''('']"

text \<open>The inner loop \<open>for j in range(i, min(len(lines), i + 20))\<close>.\<close>

fun find_brace :: "string list \<Rightarrow> nat list \<Rightarrow> nat option" where
  "find_brace lines [] = None"
| "find_brace lines (j # js) =
     (if contains ''{'' (lines ! j) then Some (j + 1) else find_brace lines js)"

text \<open>The outer loop over the indices \<open>range(error_line - 1, max(0, error_line - 100), -1)\<close>;
  \<open>lines[i]\<close> raises when \<open>i\<close> is past the end of the file.\<close>

fun scan_back :: "string list \<Rightarrow> nat list \<Rightarrow> error + nat option" where
  "scan_back lines [] = Inr None"
| "scan_back lines (i # is) =
     (if length lines \<le> i then Inl IndexError
      else if re_match decl_pattern (lines ! i) then
        (case find_brace lines [i ..< min (length lines) (i + 20)] of
           Some method_start \<Rightarrow> Inr (Some method_start)
         | None \<Rightarrow> scan_back lines is)
      else scan_back lines is)"

definition search_range :: "nat \<Rightarrow> nat list" where
  "search_range error_line = rev [Suc (max 0 (error_line - 100)) ..< error_line]"

definition find_method_start :: "string list \<Rightarrow> nat \<Rightarrow> error + nat option" where
  "find_method_start lines error_line = scan_back lines (search_range error_line)"

text \<open>\<open>f.readlines()\<close>: the lines of the text, each with its newline.\<close>

fun readlines :: "string \<Rightarrow> string list" where
  "readlines [] = []"
| "readlines (c # cs) =
     (if c = nl then [c] # readlines cs
      else (case readlines cs of
              [] \<Rightarrow> [[c]]
            | l # ls \<Rightarrow> (c # l) # ls))"

text \<open>The loop \<open>for error_line in sorted(error_lines)\<close> of \<open>fix_file\<close>, on the list of
  lines it mutates and the set \<open>methods_fixed\<close>.\<close>

fun add_declarations :: "nat list \<Rightarrow> string list \<Rightarrow> nat list \<Rightarrow> error + string list" where
  "add_declarations [] lines methods_fixed = Inr lines"
| "add_declarations (error_line # rest) lines methods_fixed =
     (case find_method_start lines error_line of
        Inl e \<Rightarrow> Inl e
      | Inr None \<Rightarrow> add_declarations rest lines methods_fixed
      | Inr (Some method_start) \<Rightarrow>
          if method_start \<noteq> 0 \<and> method_start \<notin> set methods_fixed then
            (if \<not> contains ''const tenantId'' (concat (take 50 (drop method_start lines))) then
               (if length lines \<le> method_start then Inl IndexError
                else
                  let indent = length (lines ! method_start) - length (lstrip (lines ! method_start));
                      declaration = replicate indent CHR '' '' @
                                    ''const tenantId = getTenantId(user);\<newline>\<newline>''
                  in add_declarations rest
                       (take method_start lines @ [declaration] @ drop method_start lines)
                       (method_start # methods_fixed))
             else add_declarations rest lines methods_fixed)
          else add_declarations rest lines methods_fixed)"

text \<open>\<open>fix_file\<close> of \<^verbatim>\<open>add-missing-tenant-id.py\<close>.\<close>

definition fix_file_missing :: "string \<Rightarrow> nat list \<Rightarrow> error + string option" where
  "fix_file_missing content error_lines =
     (let original_lines = readlines content in
      case add_declarations (sort error_lines) original_lines [] of
        Inl e \<Rightarrow> Inl e
      | Inr lines \<Rightarrow> Inr (if lines \<noteq> original_lines then Some (concat lines) else None))"

section \<open>Properties of the reference rewriter\<close>

lemma length_rewrite_lines: "length (rewrite_lines b ls) = length ls"
  by (induction ls arbitrary: b) auto

lemma rewrite_lines_append:
  "rewrite_lines b (xs @ ys) = rewrite_lines b xs @ rewrite_lines (flag_after b xs) ys"
  by (induction xs arbitrary: b) auto

lemma flag_after_append:
  "flag_after b (xs @ ys) = flag_after (flag_after b xs) ys"
  by (induction xs arbitrary: b) auto

lemma rewrite_lines_nth:
  assumes i: "i < length ls"
  shows "rewrite_lines b ls ! i = hd (rewrite_lines (flag_after b (take i ls)) [ls ! i])"
proof -
  have "ls = take i ls @ (ls ! i) # drop (Suc i) ls"
    using i by (simp add: id_take_nth_drop)
  then have "rewrite_lines b ls =
      rewrite_lines b (take i ls) @
      rewrite_lines (flag_after b (take i ls)) ((ls ! i) # drop (Suc i) ls)"
    by (metis rewrite_lines_append)
  moreover have "length (rewrite_lines b (take i ls)) = i"
    using i by (simp add: length_rewrite_lines)
  ultimately show ?thesis
    by (simp add: nth_append)
qed

lemma flag_after_guard:
  "\<forall>m \<in> set mid. \<not> contains ''const tenantId = user.tenantId'' m \<Longrightarrow>
   flag_after True mid = True"
  by (induction mid) auto

lemma rewrite_guard_lines_kept:
  "\<forall>m \<in> set mid. \<not> contains ''const tenantId = user.tenantId'' m \<Longrightarrow>
   rewrite_lines True mid = mid"
  by (induction mid) auto

text \<open>
  C6, for the rewriter of \<open>fix_controller_file\<close> and \<open>fix_any_file\<close>. A guard block is a
  line \<open>c\<close> with the conditional-failure test, lines \<open>mid\<close> without the binding
  declaration, and the line \<open>d\<close> with the binding declaration (and without the test).
  Wherever the block stands and whatever the flag was before it, the block is emitted
  as it is, the machine is inside the block from \<open>c\<close> on, and it is outside again for
  the lines \<open>post\<close> after \<open>d\<close>.
\<close>

theorem guard_block_emitted_unchanged:
  assumes c: "contains ''!user.tenantId'' c"
      and mid: "\<forall>m \<in> set mid. \<not> contains ''const tenantId = user.tenantId'' m"
      and d: "contains ''const tenantId = user.tenantId'' d"
      and nd: "\<not> contains ''!user.tenantId'' d"
  shows "rewrite_lines b (pre @ c # mid @ d # post) =
           rewrite_lines b pre @ c # mid @ d # rewrite_lines False post
         \<and> flag_after b (pre @ c # mid) = True
         \<and> flag_after b (pre @ c # mid @ [d]) = False"
proof -
  have "rewrite_lines True (mid @ d # post) = mid @ rewrite_lines True (d # post)"
    using mid by (simp add: rewrite_lines_append flag_after_guard rewrite_guard_lines_kept)
  moreover have "rewrite_lines True (d # post) = d # rewrite_lines False post"
    using d nd by simp
  moreover have "rewrite_lines (flag_after b pre) (c # mid @ d # post) =
      c # rewrite_lines True (mid @ d # post)"
    using c by simp
  ultimately have out: "rewrite_lines b (pre @ c # mid @ d # post) =
      rewrite_lines b pre @ c # mid @ d # rewrite_lines False post"
    by (simp add: rewrite_lines_append)
  have inside: "flag_after b (pre @ c # mid) = True"
    using c mid by (simp add: flag_after_append flag_after_guard)
  have "flag_after b (pre @ c # mid @ [d]) = flag_after (flag_after b (pre @ c # mid)) [d]"
    by (metis append.assoc append_Cons flag_after_append)
  then have outside: "flag_after b (pre @ c # mid @ [d]) = False"
    using inside d nd by simp
  show ?thesis
    using out inside outside by blast
qed

theorem guard_block_emitted_unchanged_witness:
  "contains ''!user.tenantId'' ''    if (!user.tenantId) {'' \<and>
   \<not> contains ''const tenantId = user.tenantId'' ''      throw new Error(user.tenantId);'' \<and>
   \<not> contains ''const tenantId = user.tenantId'' ''    }'' \<and>
   contains ''const tenantId = user.tenantId'' ''    const tenantId = user.tenantId;'' \<and>
   \<not> contains ''!user.tenantId'' ''    const tenantId = user.tenantId;'' \<and>
   rewrite_lines False
     [''async f(@CurrentUser() user: IUser) {'',
      ''    if (!user.tenantId) {'',
      ''      throw new Error(user.tenantId);'',
      ''    }'',
      ''    const tenantId = user.tenantId;'',
      ''    return find(user.tenantId);''] =
     [''async f(@CurrentUser() user: IUser) {'',
      ''    if (!user.tenantId) {'',
      ''      throw new Error(user.tenantId);'',
      ''    }'',
      ''    const tenantId = user.tenantId;'',
      ''    return find(tenantId);'']"
  using guard_block_emitted_unchanged [of "''    if (!user.tenantId) {''"
      "[''      throw new Error(user.tenantId);'', ''    }'']"
      "''    const tenantId = user.tenantId;''" False
      "[''async f(@CurrentUser() user: IUser) {'']"
      "[''    return find(user.tenantId);'']"]
  by (simp add: lower_def lower_char_def)

text \<open>
  C6 as stated fails on the rewriter of \<open>fix_reconciliation_controller\<close>: its machine
  leaves the block on a line that is only a closing brace, so a line between that
  brace and the binding declaration is rewritten.
\<close>

theorem guard_block_recon_counterexample:
  "rewrite_lines_recon False
     [''if (!user.tenantId) {'', ''}'', ''x(user.tenantId)'',
      ''const tenantId = user.tenantId;''] =
     [''if (!user.tenantId) {'', ''}'', ''x(tenantId)'',
      ''const tenantId = user.tenantId;'']"
  by (simp add: strip_def is_space_def)

text \<open>
  C5, for the rewriter of \<open>fix_controller_file\<close> and \<open>fix_any_file\<close>: a line in which
  \<open>logger\<close> occurs (in any letter case) is emitted unchanged; a line without it that
  contains \<open>user.tenantId\<close> and lies outside the guard block (it has no
  conditional-failure test and the flag is off when the loop reaches it) is emitted
  with every occurrence replaced, as \<open>str.replace\<close> does.
\<close>

theorem log_exemption:
  "(\<forall>i < length ls. contains ''logger'' (lower (ls ! i)) \<longrightarrow> rewrite_lines b ls ! i = ls ! i) \<and>
   (\<forall>j < length ls.
      \<not> contains ''logger'' (lower (ls ! j)) \<and> contains ''user.tenantId'' (ls ! j) \<and>
      \<not> contains ''!user.tenantId'' (ls ! j) \<and> \<not> flag_after b (take j ls) \<longrightarrow>
      rewrite_lines b ls ! j = replace ''user.tenantId'' ''tenantId'' (ls ! j))"
  by (simp add: rewrite_lines_nth)

theorem log_exemption_witness:
  "rewrite_lines False
     [''  this.logger.log(user.tenantId);'', ''  return find(user.tenantId, user.tenantId);''] ! 0
     = ''  this.logger.log(user.tenantId);'' \<and>
   rewrite_lines False
     [''  this.logger.log(user.tenantId);'', ''  return find(user.tenantId, user.tenantId);''] ! 1
     = ''  return find(tenantId, tenantId);''"
  using log_exemption [of "[''  this.logger.log(user.tenantId);'',
      ''  return find(user.tenantId, user.tenantId);'']" False]
  by (simp add: lower_def lower_char_def)

text \<open>
  C5 as stated fails on the rewriter of \<open>fix_reconciliation_controller\<close>, which has no
  test for logging calls: the logging line is rewritten like any other.
\<close>

theorem log_exemption_recon_counterexample:
  "rewrite_lines_recon False [''    this.logger.log(user.tenantId);''] =
     [''    this.logger.log(tenantId);'']"
  by simp

section \<open>The import resolver\<close>

text \<open>
  C7, as the code has it: the module path is settled by two substring tests on the
  path of the file, the test for \<open>/api/admin/\<close> first. A path \<open>a\<close> with \<open>/api/admin/\<close>
  gets the path two levels up, also when it has \<open>/websocket/\<close> as well; a path \<open>w\<close>
  with \<open>/websocket/\<close> only gets the path through \<open>../api\<close>; a path \<open>d\<close> with neither
  gets the path one level up. Two paths \<open>p\<close> and \<open>q\<close> that agree on both tests get the
  same path, whatever their depth.
\<close>

theorem relative_path_by_directory_names:
  assumes "contains ''/api/admin/'' a"
      and "\<not> contains ''/api/admin/'' w" and "contains ''/websocket/'' w"
      and "\<not> contains ''/api/admin/'' d" and "\<not> contains ''/websocket/'' d"
      and "contains ''/api/admin/'' p = contains ''/api/admin/'' q"
      and "contains ''/websocket/'' p = contains ''/websocket/'' q"
  shows "relative_path a = ''../../auth/utils/tenant-assertions'' \<and>
         relative_path w = ''../api/auth/utils/tenant-assertions'' \<and>
         relative_path d = ''../auth/utils/tenant-assertions'' \<and>
         relative_path p = relative_path q"
  using assms by (simp add: relative_path_def)

theorem relative_path_by_directory_names_witness:
  "relative_path ''src/api/admin/websocket/admin.gateway.ts'' = ''../../auth/utils/tenant-assertions'' \<and>
   relative_path ''src/websocket/events.gateway.ts'' = ''../api/auth/utils/tenant-assertions'' \<and>
   relative_path ''src/api/billing/invoice.controller.ts'' = ''../auth/utils/tenant-assertions'' \<and>
   relative_path ''src/websocket/events.gateway.ts'' = relative_path ''src/a/b/c/websocket/d/e.ts''"
proof -
  have 1: "contains ''/api/admin/'' ''src/api/admin/websocket/admin.gateway.ts''" by code_simp
  have 2: "\<not> contains ''/api/admin/'' ''src/websocket/events.gateway.ts''" by code_simp
  have 3: "contains ''/websocket/'' ''src/websocket/events.gateway.ts''" by code_simp
  have 4: "\<not> contains ''/api/admin/'' ''src/api/billing/invoice.controller.ts''" by code_simp
  have 5: "\<not> contains ''/websocket/'' ''src/api/billing/invoice.controller.ts''" by code_simp
  have 6: "contains ''/api/admin/'' ''src/websocket/events.gateway.ts'' =
           contains ''/api/admin/'' ''src/a/b/c/websocket/d/e.ts''" by code_simp
  have 7: "contains ''/websocket/'' ''src/websocket/events.gateway.ts'' =
           contains ''/websocket/'' ''src/a/b/c/websocket/d/e.ts''" by code_simp
  show ?thesis
    by (rule relative_path_by_directory_names [OF 1 2 3 4 5 6 7])
qed

text \<open>
  C7 as stated fails: two files at the same directory depth get different module
  paths, because one of them lies under a directory named \<open>admin\<close>.
\<close>

theorem import_depth_counterexample:
  "length (filter (\<lambda>c. c = CHR ''/'') ''src/api/admin/a.controller.ts'') =
   length (filter (\<lambda>c. c = CHR ''/'') ''src/api/staff/a.controller.ts'') \<and>
   relative_path ''src/api/admin/a.controller.ts'' = ''../../auth/utils/tenant-assertions'' \<and>
   relative_path ''src/api/staff/a.controller.ts'' = ''../auth/utils/tenant-assertions''"
  by (simp add: relative_path_def)

section \<open>Writing the file\<close>

text \<open>
  C3 on \<open>fix_controller_file\<close>: a controller file that already has its guard and uses
  the binding goes through the function unchanged, and the function writes it all the
  same (\<open>fix_dto_file\<close>, \<open>fix_types_file\<close> and \<open>fix_any_file\<close> compare before they write).
\<close>

theorem fix_controller_file_writes_unchanged:
  "fix_controller_file
     ''async f(@CurrentUser() user: IUser) {\<newline>    if (!user.tenantId) {\<newline>      throw new Error('no tenant');\<newline>    }\<newline>    const tenantId = user.tenantId;\<newline>    return this.svc.get(tenantId);\<newline>  }\<newline>'' =
   Some ''async f(@CurrentUser() user: IUser) {\<newline>    if (!user.tenantId) {\<newline>      throw new Error('no tenant');\<newline>    }\<newline>    const tenantId = user.tenantId;\<newline>    return this.svc.get(tenantId);\<newline>  }\<newline>''"
  by code_simp

section \<open>The boundary locator\<close>


lemma find_brace_None:
  "(find_brace lines js = None) = (\<forall>j \<in> set js. \<not> contains ''{'' (lines ! j))"
  by (induction js) auto

lemma find_brace_upt_None:
  "(find_brace lines [i..<min (length lines) (i + 20)] \<noteq> None) =
   (\<exists>j. i \<le> j \<and> j < i + 20 \<and> j < length lines \<and> contains ''{'' (lines ! j))"
  by (auto simp: find_brace_None)


lemma scan_back_None:
  "\<forall>i \<in> set is. i < length lines \<and>
      \<not> (re_match decl_pattern (lines ! i) \<and>
         find_brace lines [i..<min (length lines) (i + 20)] \<noteq> None) \<Longrightarrow>
   scan_back lines is = Inr None"
  by (induction "is") (auto split: option.splits)







text \<open>
  C8, as the code has it. When no line of the searched range (indices \<open>L - 1\<close> down to
  \<open>L - 99\<close>, never index 0) both has the shape of a declaration and is followed,
  within 20 lines from itself, by a line with an opening brace, the locator answers
  not-found and the loop of \<open>fix_file\<close> passes over the diagnostic: the lines and the
  set of fixed methods go unchanged to the next diagnostic.
\<close>

theorem boundary_not_found_no_insertion:
  assumes len: "L \<le> length lines"
      and none: "\<forall>i. Suc (L - 100) \<le> i \<and> i < L \<longrightarrow>
                 \<not> (re_match decl_pattern (lines ! i) \<and>
                    (\<exists>j. i \<le> j \<and> j < i + 20 \<and> j < length lines \<and> contains ''{'' (lines ! j)))"
  shows "find_method_start lines L = Inr None \<and>
         add_declarations (L # rest) lines methods_fixed = add_declarations rest lines methods_fixed"
proof -
  have "\<forall>i \<in> set (search_range L). i < length lines \<and>
      \<not> (re_match decl_pattern (lines ! i) \<and>
         find_brace lines [i..<min (length lines) (i + 20)] \<noteq> None)"
    using len none by (simp only: find_brace_upt_None) (auto simp: search_range_def)
  then have "find_method_start lines L = Inr None"
    unfolding find_method_start_def by (rule scan_back_None)
  then show ?thesis by simp
qed

theorem boundary_not_found_no_insertion_witness:
  "find_method_start [''const a = 1;\<newline>'', ''a.t = tenantId;\<newline>''] 2 = Inr None \<and>
   add_declarations [2] [''const a = 1;\<newline>'', ''a.t = tenantId;\<newline>''] [] =
     Inr [''const a = 1;\<newline>'', ''a.t = tenantId;\<newline>'']"
proof -
  have m: "\<not> re_match decl_pattern ''a.t = tenantId;\<newline>''"
    by code_simp
  have one: "\<forall>i. Suc ((2::nat) - 100) \<le> i \<and> i < 2 \<longrightarrow> i = 1"
    by auto
  have none: "\<forall>i. Suc (2 - 100) \<le> i \<and> i < 2 \<longrightarrow>
      \<not> (re_match decl_pattern ([''const a = 1;\<newline>'', ''a.t = tenantId;\<newline>''] ! i) \<and>
         (\<exists>j. i \<le> j \<and> j < i + 20 \<and> j < length [''const a = 1;\<newline>'', ''a.t = tenantId;\<newline>''] \<and>
              contains ''{'' ([''const a = 1;\<newline>'', ''a.t = tenantId;\<newline>''] ! j)))"
    using m one by auto
  show ?thesis
    using boundary_not_found_no_insertion
      [of 2 "[''const a = 1;\<newline>'', ''a.t = tenantId;\<newline>'']" "[]" "[]", OF _ none]
    by simp
qed

text \<open>
  C8 as stated fails: the declaration-shaped line found first (the call on the
  diagnostic line itself) has no opening brace in the 20 lines from it, yet the locator
  does not answer not-found; it goes on to an earlier line and an insertion is made.
\<close>

theorem not_found_counterexample:
  "re_match decl_pattern
     ([''class C {\<newline>'', ''  run(user) {\<newline>'', ''    helper(tenantId);\<newline>'', ''  }\<newline>'', ''}\<newline>''] ! 2) \<and>
   find_brace [''class C {\<newline>'', ''  run(user) {\<newline>'', ''    helper(tenantId);\<newline>'', ''  }\<newline>'', ''}\<newline>'']
     [2 ..< min 5 (2 + 20)] = None \<and>
   find_method_start
     [''class C {\<newline>'', ''  run(user) {\<newline>'', ''    helper(tenantId);\<newline>'', ''  }\<newline>'', ''}\<newline>''] 3 = Inr (Some 2) \<and>
   add_declarations [3]
     [''class C {\<newline>'', ''  run(user) {\<newline>'', ''    helper(tenantId);\<newline>'', ''  }\<newline>'', ''}\<newline>''] [] =
   Inr [''class C {\<newline>'', ''  run(user) {\<newline>'', ''    const tenantId = getTenantId(user);\<newline>\<newline>'',
        ''    helper(tenantId);\<newline>'', ''  }\<newline>'', ''}\<newline>'']"
  by code_simp

section \<open>The order of the insertions\<close>

subsection \<open>The matcher consumes a prefix of the text\<close>

lemma starts_with_iff: "starts_with p s = (take (length p) s = p)"
  by (induction p s rule: starts_with.induct) auto

lemma starts_with_append: "starts_with p s \<Longrightarrow> s = p @ drop (length p) s"
  by (metis append_take_drop_id starts_with_iff)

lemma star_ends_consumes:
  "(bef', s', caps') \<in> set (star_ends P bef s caps) \<Longrightarrow>
   \<exists>m. s = m @ s' \<and> bef' = rev m @ bef \<and> caps' = caps \<and> (\<forall>c \<in> set m. P c)"
proof (induction s arbitrary: bef)
  case Nil
  then show ?case by simp
next
  case (Cons c cs)
  show ?case
  proof (cases "(bef', s', caps') = (bef, c # cs, caps)")
    case True
    then show ?thesis by simp
  next
    case False
    then have pc: "P c" and "(bef', s', caps') \<in> set (star_ends P (c # bef) cs caps)"
      using Cons.prems by (auto split: if_splits)
    then obtain m where "cs = m @ s'" "bef' = rev m @ c # bef" "caps' = caps" "\<forall>x \<in> set m. P x"
      using Cons.IH by blast
    then show ?thesis using pc by (intro exI[of _ "c # m"]) simp
  qed
qed

lemma rmatch_consumes:
  "(bef', s', caps') \<in> set (rmatch r (bef, s, caps)) \<Longrightarrow>
   \<exists>m. s = m @ s' \<and> bef' = rev m @ bef"
proof (induction r arbitrary: bef s caps bef' s' caps')
  case (Lit l)
  then show ?case
    by (auto split: if_splits dest: starts_with_append)
next
  case (One k)
  then show ?case by (auto split: list.splits if_splits)
next
  case (Star k)
  then show ?case using star_ends_consumes by fastforce
next
  case (Plus k)
  then obtain c cs where s: "s = c # cs" "in_class k c"
      "(bef', s', caps') \<in> set (star_ends (in_class k) (c # bef) cs caps)"
    by (auto split: list.splits if_splits)
  then obtain m where "cs = m @ s'" "bef' = rev m @ c # bef"
    using star_ends_consumes by blast
  then show ?case using s by (intro exI[of _ "c # m"]) simp
next
  case (Seq a b)
  then obtain st where st: "st \<in> set (rmatch a (bef, s, caps))"
      "(bef', s', caps') \<in> set (rmatch b st)"
    by auto
  obtain b1 s1 c1 where st1: "st = (b1, s1, c1)" by (cases st) auto
  obtain m1 where m1: "s = m1 @ s1" "b1 = rev m1 @ bef"
    using Seq.IH(1) st(1) st1 by blast
  obtain m2 where m2: "s1 = m2 @ s'" "bef' = rev m2 @ b1"
    using Seq.IH(2) st(2) st1 by blast
  show ?case using m1 m2 by (intro exI[of _ "m1 @ m2"]) simp
next
  case (Alt a b)
  then show ?case by auto
next
  case (Opt a)
  then show ?case by auto
next
  case (Group n a)
  then show ?case by auto
next
  case WordBoundary
  then show ?case by (auto split: if_splits)
next
  case (NotBehind l)
  then show ?case by (auto split: if_splits)
qed

lemma rmatch_head_shorter:
  "rmatch r (bef, s, caps) = (bef', s', caps') # rest \<Longrightarrow> length s' \<le> length s"
proof -
  assume "rmatch r (bef, s, caps) = (bef', s', caps') # rest"
  then have "(bef', s', caps') \<in> set (rmatch r (bef, s, caps))" by simp
  then obtain m where "s = m @ s'" using rmatch_consumes by blast
  then show ?thesis by simp
qed

lemma finditer_from_bounds:
  "(a, b, caps) \<in> set (finditer_from r skip pos bef s) \<Longrightarrow>
   pos + skip \<le> a \<and> a \<le> b \<and> b \<le> pos + length s"
proof (induction s arbitrary: skip pos bef)
  case Nil
  show ?case
  proof (cases "skip = 0")
    case True
    then show ?thesis using Nil by (cases "rmatch r (bef, [], [])") auto
  next
    case False
    then show ?thesis using Nil by simp
  qed
next
  case (Cons c cs)
  show ?case
  proof (cases "skip > 0")
    case True
    then have "(a, b, caps) \<in> set (finditer_from r (skip - 1) (Suc pos) (c # bef) cs)"
      using Cons.prems by simp
    then show ?thesis using Cons.IH True by fastforce
  next
    case False
    then have sk: "skip = 0" by simp
    show ?thesis
    proof (cases "rmatch r (bef, c # cs, [])")
      case Nil
      then have "(a, b, caps) \<in> set (finditer_from r 0 (Suc pos) (c # bef) cs)"
        using Cons.prems sk by simp
      then show ?thesis using Cons.IH sk by fastforce
    next
      case (Cons st sts)
      obtain b1 rest c1 where st: "st = (b1, rest, c1)" by (cases st) auto
      have le: "length rest \<le> Suc (length cs)"
        using rmatch_head_shorter Cons st by fastforce
      from Cons.prems sk Cons st
      have "(a, b, caps) = (pos, pos + (Suc (length cs) - length rest), c1) \<or>
            (a, b, caps) \<in> set (finditer_from r (length cs - length rest) (Suc pos) (c # bef) cs)"
        by simp
      then show ?thesis
      proof
        assume "(a, b, caps) = (pos, pos + (Suc (length cs) - length rest), c1)"
        then show ?thesis using sk le by auto
      next
        assume "(a, b, caps) \<in> set (finditer_from r (length cs - length rest) (Suc pos) (c # bef) cs)"
        then have "Suc pos + (length cs - length rest) \<le> a \<and> a \<le> b \<and> b \<le> Suc pos + length cs"
          using Cons.IH by blast
        then show ?thesis using sk by auto
      qed
    qed
  qed
qed

lemma finditer_from_sorted:
  "sorted (map match_end (finditer_from r skip pos bef s))"
proof (induction s arbitrary: skip pos bef)
  case Nil
  then show ?case by (auto split: list.splits)
next
  case (Cons c cs)
  show ?case
  proof (cases "skip > 0")
    case True
    then show ?thesis using Cons.IH by simp
  next
    case False
    then have sk: "skip = 0" by simp
    show ?thesis
    proof (cases "rmatch r (bef, c # cs, [])")
      case Nil
      then show ?thesis using Cons.IH sk by simp
    next
      case (Cons st sts)
      obtain b1 rest c1 where st: "st = (b1, rest, c1)" by (cases st) auto
      have le: "length rest \<le> Suc (length cs)"
        using rmatch_head_shorter Cons st by fastforce
      have later: "\<forall>x \<in> set (finditer_from r (length cs - length rest) (Suc pos) (c # bef) cs).
            pos + (Suc (length cs) - length rest) \<le> match_end x"
      proof
        fix x assume x: "x \<in> set (finditer_from r (length cs - length rest) (Suc pos) (c # bef) cs)"
        obtain a b caps where xx: "x = (a, b, caps)" by (cases x) auto
        then have "Suc pos + (length cs - length rest) \<le> a \<and> a \<le> b"
          using finditer_from_bounds x by blast
        then show "pos + (Suc (length cs) - length rest) \<le> match_end x"
          using xx le by (auto simp: match_end_def)
      qed
      show ?thesis
        using Cons st sk later Cons.IH by (simp add: match_end_def)
    qed
  qed
qed

lemma finditer_ends_sorted: "sorted (map match_end (finditer r s))"
  by (simp add: finditer_def finditer_from_sorted)

lemma finditer_ends_bounded: "\<forall>e \<in> set (map match_end (finditer r s)). e \<le> length s"
proof
  fix e assume "e \<in> set (map match_end (finditer r s))"
  then obtain a b caps where "(a, b, caps) \<in> set (finditer_from r 0 0 [] s)" "e = b"
    by (auto simp: finditer_def match_end_def)
  then show "e \<le> length s" using finditer_from_bounds by fastforce
qed

lemma subseq_set: "subseq sel ps \<Longrightarrow> set sel \<subseteq> set ps"
  by (auto elim: list_emb_set)

lemma insert_at_offsets_append:
  "\<forall>q \<in> set sel. q \<le> length a \<Longrightarrow>
   insert_at_offsets g sel (a @ b) = insert_at_offsets g sel a @ b"
  by (induction sel arbitrary: a b) auto

lemma insert_guards_at_offsets:
  "sorted (rev ps) \<Longrightarrow> \<forall>p \<in> set ps. p \<le> length content \<Longrightarrow>
   \<exists>sel. subseq sel ps \<and>
     insert_guards window signs guard ps content = insert_at_offsets guard sel content"
proof (induction ps arbitrary: content)
  case Nil
  then show ?case by (intro exI[of _ "[]"]) simp
next
  case (Cons p ps)
  have sorted_ps: "sorted (rev ps)" and below: "\<forall>q \<in> set ps. q \<le> p"
    using Cons.prems(1) by (auto simp: sorted_append)
  have p: "p \<le> length content" using Cons.prems(2) by simp
  show ?case
  proof (cases "list_ex (\<lambda>sign. contains sign (take window (drop p content))) signs")
    case True
    obtain sel where "subseq sel ps"
        "insert_guards window signs guard ps content = insert_at_offsets guard sel content"
      using Cons.IH sorted_ps Cons.prems(2) by fastforce
    then show ?thesis using True by (intro exI[of _ sel]) (simp add: list_emb_Cons)
  next
    case False
    let ?c = "take p content @ guard @ drop p content"
    have "\<forall>q \<in> set ps. q \<le> length ?c" using Cons.prems(2) by auto
    then obtain sel where sel: "subseq sel ps"
        "insert_guards window signs guard ps ?c = insert_at_offsets guard sel ?c"
      using Cons.IH sorted_ps by blast
    have "\<forall>q \<in> set sel. q \<le> length (take p content)"
      using subseq_set[OF sel(1)] below p by auto
    then have "insert_at_offsets guard sel ?c =
        insert_at_offsets guard sel (take p content) @ guard @ drop p content"
      by (rule insert_at_offsets_append)
    then have "insert_guards window signs guard (p # ps) content =
        insert_at_offsets guard (p # sel) content"
      using False sel(2) by simp
    then show ?thesis using sel(1) by (intro exI[of _ "p # sel"]) simp
  qed
qed

text \<open>
  The loops \<open>for match in reversed(list(re.finditer(...)))\<close> of \<open>fix_controller_file\<close>
  and \<open>fix_any_file\<close> keep the rule of C4, whatever the pattern, the window, the signs
  and the guard. The match ends are visited in descending order, and the text the loop
  produces is the original text with the guard put at original offsets: the offsets of a
  sub-list of the recorded match ends (those whose window test failed), none of them
  shifted by an insertion made before.
\<close>

theorem guards_land_at_snapshot_offsets:
  "sorted_wrt (\<ge>) (rev (map match_end (finditer r content))) \<and>
   (\<exists>sel. subseq sel (rev (map match_end (finditer r content))) \<and>
     insert_guards window signs guard (rev (map match_end (finditer r content))) content =
       insert_at_offsets guard sel content)"
proof -
  have "sorted (rev (rev (map match_end (finditer r content))))"
    by (simp add: finditer_ends_sorted)
  moreover have "\<forall>p \<in> set (rev (map match_end (finditer r content))). p \<le> length content"
    using finditer_ends_bounded by simp
  ultimately show ?thesis
    using insert_guards_at_offsets [of "rev (map match_end (finditer r content))" content]
    by (simp add: sorted_wrt_rev finditer_ends_sorted)
qed

text \<open>
  C4 fails in \<open>fix_file\<close> of \<^verbatim>\<open>add-missing-tenant-id.py\<close>, which goes through the
  diagnostics in ascending order and inserts into the list of lines it is still
  reading, so that the line numbers of the later diagnostics are stale. Three methods
  \<open>a\<close>, \<open>b\<close> and \<open>c\<close> each use \<open>tenantId\<close>, on lines 3, 6 and 9. On the original lines
  the boundary for line 9 is index 8, the body of \<open>c\<close>, and line 9 alone gets its
  declaration there. With the three diagnostics together, two lines are in before
  line 9 is looked at: line 9 is then the closing brace of \<open>b\<close>, the boundary found is
  the one of \<open>b\<close>, which is done already, and \<open>c\<close> gets no declaration.
\<close>

theorem fix_file_missing_stale_line_numbers:
  "find_method_start
     (readlines ''class C {\<newline>  a(user) {\<newline>    x = tenantId;\<newline>  }\<newline>  b(user) {\<newline>    y = tenantId;\<newline>  }\<newline>  c(user) {\<newline>    z = tenantId;\<newline>  }\<newline>}\<newline>'') 9 = Inr (Some 8) \<and>
   fix_file_missing
     ''class C {\<newline>  a(user) {\<newline>    x = tenantId;\<newline>  }\<newline>  b(user) {\<newline>    y = tenantId;\<newline>  }\<newline>  c(user) {\<newline>    z = tenantId;\<newline>  }\<newline>}\<newline>'' [9] =
   Inr (Some ''class C {\<newline>  a(user) {\<newline>    x = tenantId;\<newline>  }\<newline>  b(user) {\<newline>    y = tenantId;\<newline>  }\<newline>  c(user) {\<newline>    const tenantId = getTenantId(user);\<newline>\<newline>    z = tenantId;\<newline>  }\<newline>}\<newline>'') \<and>
   fix_file_missing
     ''class C {\<newline>  a(user) {\<newline>    x = tenantId;\<newline>  }\<newline>  b(user) {\<newline>    y = tenantId;\<newline>  }\<newline>  c(user) {\<newline>    z = tenantId;\<newline>  }\<newline>}\<newline>'' [3, 6, 9] =
   Inr (Some ''class C {\<newline>  a(user) {\<newline>    const tenantId = getTenantId(user);\<newline>\<newline>    x = tenantId;\<newline>  }\<newline>  b(user) {\<newline>    const tenantId = getTenantId(user);\<newline>\<newline>    y = tenantId;\<newline>  }\<newline>  c(user) {\<newline>    z = tenantId;\<newline>  }\<newline>}\<newline>'')"
  by code_simp

section \<open>Running the fix twice\<close>

text \<open>
  C1 fails in \<open>fix_controller_file\<close>. The method below binds \<open>tenantId\<close> already, without
  the conditional-failure test. On the first run the window after its brace holds the
  binding declaration, one of the two signs, so no guard is inserted; but the
  rewriter, whose state machine is entered by the test line only, takes the binding
  for an ordinary line and rewrites it to \<open>const tenantId = tenantId;\<close>. On the second
  run neither sign is left in the window, and the guard is inserted: the second run
  changes the output of the first.
\<close>

theorem fix_controller_file_second_run_changes:
  "fix_controller_file
     ''  async f(@CurrentUser() user: IUser) {\<newline>    const tenantId = user.tenantId;\<newline>    return this.svc.get(tenantId);\<newline>  }\<newline>'' =
   Some ''  async f(@CurrentUser() user: IUser) {\<newline>    const tenantId = tenantId;\<newline>    return this.svc.get(tenantId);\<newline>  }\<newline>'' \<and>
   fix_controller_file
     ''  async f(@CurrentUser() user: IUser) {\<newline>    const tenantId = tenantId;\<newline>    return this.svc.get(tenantId);\<newline>  }\<newline>'' =
   Some ''  async f(@CurrentUser() user: IUser) {\<newline>    if (!user.tenantId) {\<newline>      throw new Error('This operation requires a tenant. SUPER_ADMIN users cannot access tenant-specific data.');\<newline>    }\<newline>    const tenantId = user.tenantId;\<newline>\<newline>    const tenantId = tenantId;\<newline>    return this.svc.get(tenantId);\<newline>  }\<newline>''"
  by code_simp

section \<open>The parameter checks of service files\<close>

text \<open>
  C10 fails in strategy 5 of \<open>fix_any_file\<close>. Two methods with a parameter
  \<open>tenantId: string\<close> follow each other; the pattern finds both, with the ends 35 and
  128, and the 200 characters after the first one hold no \<open>!tenantId\<close>. The loop goes
  from the last match to the first and reads the window in the text it has already
  changed: the window of \<open>findAll\<close> then holds the check just inserted into \<open>findOne\<close>,
  and \<open>findAll\<close> gets no check, while the same method alone in the file gets one.
  Moreover a return type with a brace ends the pattern at that brace, and the check is
  put inside the type.
\<close>

theorem fix_any_file_adjacent_functions:
  "map match_end (finditer func_pattern
     ''  async findAll(tenantId: string) {\<newline>    return this.repo.findAll(tenantId);\<newline>  }\<newline>\<newline>  async findOne(tenantId: string, id: string) {\<newline>    return this.repo.findOne(tenantId, id);\<newline>  }\<newline>'') = [35, 128] \<and>
   \<not> contains ''!tenantId'' (take 200 (drop 35
     ''  async findAll(tenantId: string) {\<newline>    return this.repo.findAll(tenantId);\<newline>  }\<newline>\<newline>  async findOne(tenantId: string, id: string) {\<newline>    return this.repo.findOne(tenantId, id);\<newline>  }\<newline>'')) \<and>
   fix_any_file ''src/database/services/audit-log.service.ts''
     ''  async findAll(tenantId: string) {\<newline>    return this.repo.findAll(tenantId);\<newline>  }\<newline>\<newline>  async findOne(tenantId: string, id: string) {\<newline>    return this.repo.findOne(tenantId, id);\<newline>  }\<newline>'' =
   Some ''  async findAll(tenantId: string) {\<newline>    return this.repo.findAll(tenantId);\<newline>  }\<newline>\<newline>  async findOne(tenantId: string, id: string) {\<newline>    if (!tenantId) {\<newline>      throw new Error('tenantId is required');\<newline>    }\<newline>\<newline>    return this.repo.findOne(tenantId, id);\<newline>  }\<newline>'' \<and>
   fix_any_file ''src/database/services/audit-log.service.ts''
     ''  async findAll(tenantId: string) {\<newline>    return this.repo.findAll(tenantId);\<newline>  }\<newline>'' =
   Some ''  async findAll(tenantId: string) {\<newline>    if (!tenantId) {\<newline>      throw new Error('tenantId is required');\<newline>    }\<newline>\<newline>    return this.repo.findAll(tenantId);\<newline>  }\<newline>'' \<and>
   fix_any_file ''src/database/services/audit-log.service.ts''
     ''  async count(tenantId: string): Promise<{ total: number }> {\<newline>    return this.repo.count(tenantId);\<newline>  }\<newline>'' =
   Some ''  async count(tenantId: string): Promise<{\<newline>    if (!tenantId) {\<newline>      throw new Error('tenantId is required');\<newline>    }\<newline> total: number }> {\<newline>    return this.repo.count(tenantId);\<newline>  }\<newline>''"
  by code_simp

section \<open>The reconciliation fixer\<close>


end
